theory Spec2Isabelle
  imports Complex_Main "HOL-Library.Char_ord" "HOL-Library.List_Lexorder"
begin

section \<open>Double-precision amounts\<close>

text \<open>
  Python's \<^verbatim>\<open>float\<close> and SQLite's REAL are IEEE 754 binary64 numbers, and every sum and
  difference the source computes is rounded to one. A finite double is the real it stands
  for (the two zeros are one value: \<^verbatim>\<open>==\<close> does not tell them apart, and the source
  never divides); besides there are the two infinities and NaN, which SQLite stores as
  NULL and pandas reads back as NaN.
\<close>

datatype double = Finite real | PInf | NInf | NaN

text \<open>The number of binary digits of a positive integer (\<^verbatim>\<open>int.bit_length\<close>).\<close>

function bit_length :: "int \<Rightarrow> int" where
  "bit_length n = (if n \<le> 0 then 0 else 1 + bit_length (n div 2))"
  by pat_completeness auto
termination
  by (relation "measure nat") auto

text \<open>Powers of two with an integer exponent.\<close>

definition pow2 :: "int \<Rightarrow> real" where
  "pow2 e = (if 0 \<le> e then 2 ^ nat e else 1 / 2 ^ nat (- e))"

text \<open>
  The binary exponent of a real other than 0, the \<open>e\<close> with \<open>2 ^ e \<le> \<bar>x\<bar> < 2 ^ (e + 1)\<close>:
  from the digits of the integer part when \<open>\<bar>x\<bar> \<ge> 1\<close>, of the reciprocal otherwise.
\<close>

definition expo :: "real \<Rightarrow> int" where
  "expo x =
     (if 1 \<le> \<bar>x\<bar> then bit_length \<lfloor>\<bar>x\<bar>\<rfloor> - 1 else - bit_length (\<lceil>1 / \<bar>x\<bar>\<rceil> - 1))"

text \<open>Rounding to the nearest integer, a tie going to the even one.\<close>

definition round_half_even :: "real \<Rightarrow> int" where
  "round_half_even x =
     (let f = \<lfloor>x\<rfloor>; d = x - of_int f
      in if d < 1 / 2 then f else if 1 / 2 < d then f + 1 else if even f then f else f + 1)"

text \<open>
  Rounding a real to binary64: 53 significant bits from the exponent of the real on, or
  from exponent -1022 on for a subnormal; the nearest such value, a tie going to the
  even one; and an infinity when the rounded value leaves the finite range. This is also
  how Python reads a decimal literal such as \<^verbatim>\<open>0.1\<close>.
\<close>

definition round_double :: "real \<Rightarrow> double" where
  "round_double x =
     (if x = 0 then Finite 0
      else let q = max (expo x) (- 1022) - 52;
               r = of_int (round_half_even (x / pow2 q)) * pow2 q
           in if pow2 1024 \<le> r then PInf else if r \<le> - pow2 1024 then NInf else Finite r)"

text \<open>
  \<^verbatim>\<open>+\<close> and \<^verbatim>\<open>-\<close> on floats: the exact result rounded once; NaN spreads, infinities
  of opposite sign add up to NaN.
\<close>

fun fadd :: "double \<Rightarrow> double \<Rightarrow> double" where
  "fadd NaN y = NaN"
| "fadd x NaN = NaN"
| "fadd PInf NInf = NaN"
| "fadd NInf PInf = NaN"
| "fadd PInf y = PInf"
| "fadd x PInf = PInf"
| "fadd NInf y = NInf"
| "fadd x NInf = NInf"
| "fadd (Finite x) (Finite y) = round_double (x + y)"

fun fneg :: "double \<Rightarrow> double" where
  "fneg (Finite x) = Finite (- x)"
| "fneg PInf = NInf"
| "fneg NInf = PInf"
| "fneg NaN = NaN"

definition fsub :: "double \<Rightarrow> double \<Rightarrow> double" where
  "fsub x y = fadd x (fneg y)"

section \<open>The transactions table\<close>

text \<open>
  \<^verbatim>\<open>samplace_final.py\<close> keeps one SQLite table,
  \<^verbatim>\<open>transactions(id INTEGER PRIMARY KEY AUTOINCREMENT, trans_date TEXT,
  description TEXT, income REAL, expenses REAL, balance REAL)\<close>.
  A row of it is a record with the columns in the order of the declaration.

  Text is a \<open>string\<close>, each \<open>char\<close> standing for one code point below 256; the order
  on text is the one of SQLite's BINARY collation, byte by byte and a proper prefix first,
  which is the lexicographic order of \<open>List_Lexorder\<close> over \<open>Char_ord\<close>.
  The REAL columns hold the doubles of the section before. Failures of the database
  itself (I/O errors, exhausted row ids) are not part of the model.
\<close>

record txn =
  row_id :: int
  trans_date :: string
  description :: string
  income :: double
  expenses :: double
  balance :: double

text \<open>
  The table is the list of its rows in the order a full scan visits them, together with
  the counter that AUTOINCREMENT keeps in \<^verbatim>\<open>sqlite_sequence\<close> (the largest row id
  ever handed out).
\<close>

record store =
  rows :: "txn list"
  seq :: int

definition empty_store :: store where
  "empty_store = \<lparr>rows = [], seq = 0\<rparr>"

text \<open>
  The primary key makes the ids of the stored rows pairwise different, a scan visits them
  by ascending id, and no id exceeds the AUTOINCREMENT counter.
\<close>

definition wf_store :: "store \<Rightarrow> bool" where
  "wf_store s \<longleftrightarrow>
     sorted_wrt (<) (map row_id (rows s)) \<and> list_all (\<lambda>r. row_id r \<le> seq s) (rows s)"

text \<open>The errors the specification names. The source raises none of them.\<close>

datatype error = ValidationError | NotFoundError | StoreError

section \<open>Helper functions of the source\<close>

text \<open>
  \<^verbatim>\<open>fetch_transactions\<close>: \<^verbatim>\<open>SELECT * FROM transactions ORDER BY trans_date ASC\<close>.
  The scan feeds the rows to the sorter in table order, and the sorter keeps rows with
  equal keys in the order it received them.
\<close>

definition fetch_transactions :: "store \<Rightarrow> txn list" where
  "fetch_transactions s = sort_key trans_date (rows s)"

text \<open>
  The first loop of \<^verbatim>\<open>recalc_balance\<close>:
  \<^verbatim>\<open>balance += row["income"] - row["expenses"]; balances.append(balance)\<close>,
  started with \<^verbatim>\<open>balance = 0\<close>. The difference is rounded, then the sum.
\<close>

fun balances :: "double \<Rightarrow> txn list \<Rightarrow> double list" where
  "balances bal [] = []"
| "balances bal (row # df) =
     (let bal' = fadd bal (fsub (income row) (expenses row)) in bal' # balances bal' df)"

text \<open>\<^verbatim>\<open>df["balance"] = balances\<close>: the column is overwritten in place, row by row.\<close>

definition set_balance :: "txn list \<Rightarrow> double list \<Rightarrow> txn list" where
  "set_balance df bs = map (\<lambda>(row, b). row\<lparr>balance := b\<rparr>) (zip df bs)"

text \<open>\<^verbatim>\<open>UPDATE transactions SET balance = ? WHERE id = ?\<close>\<close>

definition sql_update_balance :: "double \<Rightarrow> int \<Rightarrow> txn list \<Rightarrow> txn list" where
  "sql_update_balance b i tbl = map (\<lambda>r. if row_id r = i then r\<lparr>balance := b\<rparr> else r) tbl"

text \<open>The second loop of \<^verbatim>\<open>recalc_balance\<close>: one UPDATE per row of the frame, in order.\<close>

fun persist :: "txn list \<Rightarrow> txn list \<Rightarrow> txn list" where
  "persist [] tbl = tbl"
| "persist (row # df) tbl = persist df (sql_update_balance (balance row) (row_id row) tbl)"

text \<open>\<^verbatim>\<open>recalc_balance(df)\<close> returns the rewritten frame; the table is the second component.\<close>

definition recalc_balance :: "txn list \<Rightarrow> store \<Rightarrow> txn list \<times> store" where
  "recalc_balance df s =
     (let df' = set_balance df (balances (Finite 0) df)
      in (df', s\<lparr>rows := persist df' (rows s)\<rparr>))"

text \<open>
  The row id of an INSERT into an AUTOINCREMENT table: one more than the larger of the
  largest id in the table and the counter.
\<close>

definition next_rowid :: "store \<Rightarrow> int" where
  "next_rowid s = fold max (map row_id (rows s)) (seq s) + 1"

text \<open>
  \<^verbatim>\<open>add_transaction\<close>: the provisional balance continues the balance of the last row
  of the date-ordered fetch (0 when the table is empty): the income is added first, then
  the expenses are subtracted. Then the INSERT.
\<close>

definition add_transaction ::
  "string \<Rightarrow> string \<Rightarrow> double \<Rightarrow> double \<Rightarrow> store \<Rightarrow> error + store" where
  "add_transaction td desc inc exps s =
     (let last_balance = (if fetch_transactions s \<noteq> []
                          then balance (last (fetch_transactions s)) else Finite 0);
          new_balance = fsub (fadd last_balance inc) exps;
          i = next_rowid s
      in Inr \<lparr>rows = rows s @ [\<lparr>row_id = i, trans_date = td, description = desc,
                                income = inc, expenses = exps, balance = new_balance\<rparr>],
              seq = i\<rparr>)"

text \<open>\<^verbatim>\<open>delete_transaction\<close>: \<^verbatim>\<open>DELETE FROM transactions WHERE id = ?\<close>\<close>

definition delete_transaction :: "int \<Rightarrow> store \<Rightarrow> error + store" where
  "delete_transaction i s = Inr (s\<lparr>rows := filter (\<lambda>r. row_id r \<noteq> i) (rows s)\<rparr>)"

text \<open>
  \<^verbatim>\<open>update_transaction\<close>:
  \<^verbatim>\<open>UPDATE transactions SET trans_date = ?, description = ?, income = ?, expenses = ? WHERE id = ?\<close>
\<close>

definition update_transaction ::
  "int \<Rightarrow> string \<Rightarrow> string \<Rightarrow> double \<Rightarrow> double \<Rightarrow> store \<Rightarrow> error + store" where
  "update_transaction i td desc inc exps s =
     Inr (s\<lparr>rows := map (\<lambda>r. if row_id r = i
                               then r\<lparr>trans_date := td, description := desc,
                                      income := inc, expenses := exps\<rparr>
                               else r) (rows s)\<rparr>)"

section \<open>The add form\<close>

text \<open>
  The form hands over a \<^verbatim>\<open>datetime.date\<close>, and the handler stores \<^verbatim>\<open>str(trans_date)\<close>,
  the ISO form \<^verbatim>\<open>%04d-%02d-%02d\<close>. Python's dates have years 1 to 9999, so four digits
  are all of the year.
\<close>

record date =
  year :: nat
  month :: nat
  day :: nat

definition digit :: "nat \<Rightarrow> char" where
  "digit n = char_of (48 + n)"

definition str_date :: "date \<Rightarrow> string" where
  "str_date d =
     [digit (year d div 1000 mod 10), digit (year d div 100 mod 10),
      digit (year d div 10 mod 10), digit (year d mod 10), CHR ''-'',
      digit (month d div 10 mod 10), digit (month d mod 10), CHR ''-'',
      digit (day d div 10 mod 10), digit (day d mod 10)]"

text \<open>
  The dates a \<^verbatim>\<open>datetime.date\<close> can hold lie within these bounds, and the calendar
  orders them by year, then month, then day.
\<close>

definition valid_date :: "date \<Rightarrow> bool" where
  "valid_date d \<longleftrightarrow>
     1 \<le> year d \<and> year d \<le> 9999 \<and> 1 \<le> month d \<and> month d \<le> 12 \<and> 1 \<le> day d \<and> day d \<le> 31"

definition date_le :: "date \<Rightarrow> date \<Rightarrow> bool" where
  "date_le d e \<longleftrightarrow>
     year d < year e
     \<or> (year d = year e \<and> (month d < month e \<or> (month d = month e \<and> day d \<le> day e)))"

text \<open>
  \<^verbatim>\<open>str.strip()\<close> with no argument removes whitespace at both ends; below 256 Python's
  whitespace is the code points 9 to 13, 28 to 32, 133 and 160.
\<close>

definition isspace :: "char \<Rightarrow> bool" where
  "isspace c \<longleftrightarrow> (of_char c :: nat) \<in> {9, 10, 11, 12, 13, 28, 29, 30, 31, 32, 133, 160}"

definition strip :: "string \<Rightarrow> string" where
  "strip s = rev (dropWhile isspace (rev (dropWhile isspace s)))"

text \<open>
  What the handler shows: \<^verbatim>\<open>st.warning\<close>, \<^verbatim>\<open>st.success\<close>, or the exception that ends
  the script run. The texts are the source's without their leading emoji.
\<close>

datatype notice = Warning string | Success string | Raised error

text \<open>
  The block under \<^verbatim>\<open>if submit:\<close>. The description is checked first, then the amounts;
  only the last branch reaches the table, and it re-fetches and recalculates.
  \<^verbatim>\<open>income == 0\<close> holds of the zero and of no other double.
\<close>

definition submit_handler ::
  "date \<Rightarrow> string \<Rightarrow> double \<Rightarrow> double \<Rightarrow> store \<Rightarrow> notice \<times> store" where
  "submit_handler td desc inc exps s =
     (if strip desc = [] then (Warning ''Please enter a description.'', s)
      else if inc = Finite 0 \<and> exps = Finite 0
        then (Warning ''Either Income or Expenses must be greater than 0.'', s)
      else (case add_transaction (str_date td) desc inc exps s of
              Inl e \<Rightarrow> (Raised e, s)
            | Inr s1 \<Rightarrow> (Success ''Transaction added successfully!'',
                        snd (recalc_balance (fetch_transactions s1) s1))))"

text \<open>
  The blocks under \<^verbatim>\<open>if save_edit:\<close> and under the delete button. Both are drawn
  only when the frame is not empty, and their \<^verbatim>\<open>row_id\<close> comes from the select box
  over the rows of the frame.
\<close>

definition save_edit_handler ::
  "int \<Rightarrow> date \<Rightarrow> string \<Rightarrow> double \<Rightarrow> double \<Rightarrow> store \<Rightarrow> notice \<times> store" where
  "save_edit_handler i nd desc inc exps s =
     (if strip desc = [] then (Warning ''Please enter a description.'', s)
      else if inc = Finite 0 \<and> exps = Finite 0
        then (Warning ''Either Income or Expenses must be greater than 0.'', s)
      else (case update_transaction i (str_date nd) desc inc exps s of
              Inl e \<Rightarrow> (Raised e, s)
            | Inr s1 \<Rightarrow> (Success ''Transaction updated successfully!'',
                        snd (recalc_balance (fetch_transactions s1) s1))))"

definition delete_handler :: "int \<Rightarrow> store \<Rightarrow> notice \<times> store" where
  "delete_handler i s =
     (case delete_transaction i s of
        Inl e \<Rightarrow> (Raised e, s)
      | Inr s1 \<Rightarrow> (Success ''Transaction deleted successfully!'',
                  snd (recalc_balance (fetch_transactions s1) s1)))"


section \<open>Notions used in the statements and proofs\<close>

text \<open>The real a finite double stands for.\<close>

definition amount :: "double \<Rightarrow> real" where
  "amount x = (case x of Finite r \<Rightarrow> r | _ \<Rightarrow> 0)"

text \<open>The net contribution of a row to the running balance, in exact arithmetic.\<close>

definition net :: "txn \<Rightarrow> real" where
  "net r = amount (income r) - amount (expenses r)"

text \<open>The running total of the specification, in exact arithmetic, started from \<open>b\<close>.\<close>

fun exact_balances :: "real \<Rightarrow> txn list \<Rightarrow> real list" where
  "exact_balances b [] = []"
| "exact_balances b (row # df) = (let b' = b + net row in b' # exact_balances b' df)"

text \<open>
  No operation of the first loop rounds: started from \<open>b\<close>, every difference and every
  sum it computes over the frame is finite and is the exact one.
\<close>

fun exact_run :: "real \<Rightarrow> txn list \<Rightarrow> bool" where
  "exact_run b [] = True"
| "exact_run b (row # df) =
     (fsub (income row) (expenses row) = Finite (net row)
      \<and> fadd (Finite b) (Finite (net row)) = Finite (b + net row)
      \<and> exact_run (b + net row) df)"

text \<open>
  The specification's \<open>sum\<close> read as Python's built-in over floats: from 0, left to right,
  each sum rounded.
\<close>

definition py_sum :: "double list \<Rightarrow> double" where
  "py_sum xs = foldl fadd (Finite 0) xs"

text \<open>
  The effect of the UPDATE loop on one stored row: the balance found for its id, if any.
\<close>

definition upd :: "(int \<rightharpoonup> double) \<Rightarrow> txn \<Rightarrow> txn" where
  "upd m r = (case m (row_id r) of None \<Rightarrow> r | Some b \<Rightarrow> r\<lparr>balance := b\<rparr>)"

definition kv :: "txn \<Rightarrow> int \<times> double" where
  "kv d = (row_id d, balance d)"

section \<open>The running balance\<close>

text \<open>
  The first loop: the list it builds is as long as the frame, each entry is the entry
  before (or the start value) plus the rounded difference of the row, it continues over
  an appended frame from the total reached, and it reads incomes and expenses only.
\<close>

lemma length_balances: "length (balances b df) = length df"
  by (induction df arbitrary: b) (simp_all add: Let_def)

lemma balances_nth:
  "i < length df \<Longrightarrow>
   balances b df ! i
   = fadd (if i = 0 then b else balances b df ! (i - 1)) (fsub (income (df ! i)) (expenses (df ! i)))"
proof (induction df arbitrary: b i)
  case Nil
  then show ?case by simp
next
  case (Cons r df)
  show ?case
  proof (cases i)
    case 0
    then show ?thesis by (simp add: Let_def)
  next
    case (Suc j)
    with Cons.prems have j: "j < length df" by simp
    show ?thesis
    proof (cases j)
      case 0
      with Suc j Cons.IH [OF j] show ?thesis by (simp add: Let_def)
    next
      case (Suc k)
      with \<open>i = Suc j\<close> j Cons.IH [OF j] show ?thesis by (simp add: Let_def)
    qed
  qed
qed

lemma balances_append:
  "balances b (xs @ ys) = balances b xs @ balances (last (b # balances b xs)) ys"
proof (induction xs arbitrary: b)
  case Nil
  show ?case by simp
next
  case (Cons r xs)
  define b' where "b' = fadd b (fsub (income r) (expenses r))"
  have l: "last (b # b' # zs) = last (b' # zs)" for zs
    by simp
  have h: "balances b (r # zs) = b' # balances b' zs" for zs
    by (simp add: Let_def b'_def)
  have "balances b ((r # xs) @ ys) = b' # balances b' (xs @ ys)"
    by (simp only: append_Cons h)
  also have "\<dots> = b' # (balances b' xs @ balances (last (b' # balances b' xs)) ys)"
    by (simp only: Cons.IH)
  also have "\<dots> = balances b (r # xs) @ balances (last (b # balances b (r # xs))) ys"
    by (simp only: h l append_Cons)
  finally show ?case .
qed

lemma balances_only_amounts:
  "map income df = map income df' \<Longrightarrow> map expenses df = map expenses df' \<Longrightarrow>
   balances b df = balances b df'"
proof (induction df arbitrary: b df')
  case Nil
  then show ?case by simp
next
  case (Cons r df)
  then obtain r' df'' where "df' = r' # df''" by (cases df') auto
  with Cons show ?case by (simp add: Let_def)
qed

text \<open>
  The running total in exact arithmetic: its closed form, and what leaving out a row
  does to the totals after it. Where no operation rounds, the loop computes it.
\<close>

lemma length_exact_balances: "length (exact_balances b df) = length df"
  by (induction df arbitrary: b) (simp_all add: Let_def)

lemma exact_balances_append:
  "exact_balances b (xs @ ys)
   = exact_balances b xs @ exact_balances (b + sum_list (map net xs)) ys"
  by (induction xs arbitrary: b) (simp_all add: Let_def algebra_simps)

lemma exact_balances_shift:
  "exact_balances (b + c) df = map (\<lambda>x. x + c) (exact_balances b df)"
proof (induction df arbitrary: b)
  case Nil
  show ?case by simp
next
  case (Cons r df)
  have e: "b + c + net r = (b + net r) + c" by simp
  have "exact_balances (b + c + net r) df = map (\<lambda>x. x + c) (exact_balances (b + net r) df)"
    unfolding e by (rule Cons.IH)
  then show ?case
    unfolding exact_balances.simps Let_def by simp
qed

lemma exact_balances_nth:
  "i < length df \<Longrightarrow> exact_balances b df ! i = b + sum_list (map net (take (Suc i) df))"
proof (induction df arbitrary: b i)
  case Nil
  then show ?case by simp
next
  case (Cons r df)
  show ?case
  proof (cases i)
    case 0
    then show ?thesis by (simp add: Let_def)
  next
    case (Suc j)
    with Cons.prems have "j < length df" by simp
    from Cons.IH [OF this] Suc show ?thesis
      by (simp add: Let_def algebra_simps)
  qed
qed

lemma sum_list_net:
  "sum_list (map net df)
   = sum_list (map amount (map income df)) - sum_list (map amount (map expenses df))"
  by (induction df) (simp_all add: net_def)

lemma balances_exact:
  "exact_run b df \<Longrightarrow> balances (Finite b) df = map Finite (exact_balances b df)"
  by (induction df arbitrary: b) (simp_all add: Let_def)

lemma exact_run_append:
  "exact_run b (xs @ ys) = (exact_run b xs \<and> exact_run (b + sum_list (map net xs)) ys)"
  by (induction xs arbitrary: b) (auto simp: algebra_simps)

lemma length_set_balance: "length bs = length df \<Longrightarrow> length (set_balance df bs) = length df"
  by (simp add: set_balance_def)

lemma set_balance_nth:
  "length bs = length df \<Longrightarrow> i < length df \<Longrightarrow> set_balance df bs ! i = (df ! i)\<lparr>balance := bs ! i\<rparr>"
  by (simp add: set_balance_def)

lemma set_balance_Cons: "set_balance (r # df) (b # bs) = r\<lparr>balance := b\<rparr> # set_balance df bs"
  by (simp add: set_balance_def)

lemma set_balance_Nil: "set_balance [] bs = []" "set_balance df [] = []"
  by (simp_all add: set_balance_def)

lemma set_balance_append:
  "length xs = length bs \<Longrightarrow> set_balance (xs @ ys) (bs @ cs) = set_balance xs bs @ set_balance ys cs"
  by (simp add: set_balance_def)

section \<open>The UPDATE loop\<close>

text \<open>
  After the loop, a stored row carries the balance of the last row of the frame that has
  its id, and is untouched when the frame has none. Sorting by date commutes with it,
  since it changes no date.
\<close>

lemma row_id_upd: "row_id (upd m r) = row_id r"
  by (simp add: upd_def split: option.splits)
lemma trans_date_upd: "trans_date (upd m r) = trans_date r"
  by (simp add: upd_def split: option.splits)
lemma income_upd: "income (upd m r) = income r"
  by (simp add: upd_def split: option.splits)
lemma expenses_upd: "expenses (upd m r) = expenses r"
  by (simp add: upd_def split: option.splits)
lemma description_upd: "description (upd m r) = description r"
  by (simp add: upd_def split: option.splits)
lemma upd_idem: "upd m (upd m r) = upd m r"
  by (simp add: upd_def split: option.splits)
lemma upd_set_balance: "(upd m r)\<lparr>balance := b\<rparr> = r\<lparr>balance := b\<rparr>"
  by (simp add: upd_def split: option.splits)

lemma persist_upd: "persist df tbl = map (upd (map_of (map kv (rev df)))) tbl"
proof (induction df arbitrary: tbl)
  case Nil
  show ?case by (simp add: upd_def)
next
  case (Cons d df)
  have "upd (map_of (map kv (rev df))) (if row_id r = row_id d then r\<lparr>balance := balance d\<rparr> else r)
        = upd (map_of (map kv (rev (d # df)))) r" for r
    by (simp add: upd_def kv_def map_add_def split: option.splits)
  then show ?case
    by (simp add: Cons.IH sql_update_balance_def)
qed

lemma insort_key_map:
  "(\<And>r. f (g r) = f r) \<Longrightarrow> insort_key f (g x) (map g xs) = map g (insort_key f x xs)"
  by (induction xs) simp_all

lemma sort_key_map:
  "(\<And>r. f (g r) = f r) \<Longrightarrow> sort_key f (map g xs) = map g (sort_key f xs)"
  by (induction xs) (simp_all add: insort_key_map)

lemma balances_map_upd: "balances b (map (upd m) df) = balances b df"
  by (rule balances_only_amounts) (simp_all add: income_upd expenses_upd o_def)

lemma set_balance_map_upd: "set_balance (map (upd m) df) bs = set_balance df bs"
proof (induction df arbitrary: bs)
  case Nil
  show ?case by (simp add: set_balance_Nil)
next
  case (Cons r df)
  show ?case
    by (cases bs) (simp_all add: set_balance_Nil set_balance_Cons upd_set_balance Cons.IH)
qed

lemma recalc_twice:
  "recalc_balance (fetch_transactions (snd (recalc_balance (fetch_transactions s) s)))
       (snd (recalc_balance (fetch_transactions s) s))
   = recalc_balance (fetch_transactions s) s"
  by (simp add: recalc_balance_def Let_def fetch_transactions_def persist_upd
        sort_key_map trans_date_upd balances_map_upd set_balance_map_upd upd_idem)

section \<open>The invariant of the table\<close>

text \<open>
  The empty table satisfies \<open>wf_store\<close>, and every operation of the source keeps it:
  an INSERT takes an id above all stored ones, the others change no id.
\<close>

lemma row_id_o_upd: "row_id \<circ> upd m = row_id"
  by (simp add: fun_eq_iff row_id_upd)

lemma wf_store_distinct: "wf_store s \<Longrightarrow> distinct (map row_id (rows s))"
  by (simp add: wf_store_def strict_sorted_iff)

lemma wf_store_empty: "wf_store empty_store"
  by (simp add: wf_store_def empty_store_def)

lemma fold_max_ge: "a \<le> fold max xs (a::int)"
proof (induction xs arbitrary: a)
  case Nil show ?case by simp
next
  case (Cons x xs)
  have "a \<le> max x a" by simp
  also have "\<dots> \<le> fold max xs (max x a)" by (rule Cons.IH)
  finally show ?case by simp
qed

lemma fold_max_mem: "x \<in> set xs \<Longrightarrow> x \<le> fold max xs (a::int)"
proof (induction xs arbitrary: a)
  case Nil then show ?case by simp
next
  case (Cons y ys)
  show ?case
  proof (cases "x = y")
    case True
    have "x \<le> max y a" using True by simp
    also have "\<dots> \<le> fold max ys (max y a)" by (rule fold_max_ge)
    finally show ?thesis by simp
  next
    case False
    with Cons.prems have "x \<in> set ys" by simp
    from Cons.IH [OF this] show ?thesis by simp
  qed
qed

lemma next_rowid_fresh: "r \<in> set (rows s) \<Longrightarrow> row_id r < next_rowid s"
  using fold_max_mem [of "row_id r" "map row_id (rows s)" "seq s"]
  by (simp add: next_rowid_def)

lemma next_rowid_seq: "seq s < next_rowid s"
  using fold_max_ge [of "seq s" "map row_id (rows s)"]
  by (simp add: next_rowid_def)

lemma wf_store_add:
  assumes "wf_store s" and "add_transaction td desc inc exps s = Inr s'"
  shows "wf_store s'"
proof -
  have lt: "\<forall>r\<in>set (rows s). row_id r < next_rowid s"
    by (simp add: next_rowid_fresh)
  then have le: "\<forall>r\<in>set (rows s). row_id r \<le> next_rowid s"
    by (simp add: less_imp_le)
  from assms lt le show ?thesis
    by (auto simp: wf_store_def add_transaction_def Let_def sorted_wrt_append list_all_iff)
qed

lemma wf_store_delete:
  assumes "wf_store s" and "delete_transaction i s = Inr s'"
  shows "wf_store s'"
  using assms
  by (auto simp: wf_store_def delete_transaction_def list_all_iff sorted_wrt_map
        intro: sorted_wrt_filter)

lemma wf_store_update:
  assumes "wf_store s" and "update_transaction i td desc inc exps s = Inr s'"
  shows "wf_store s'"
proof -
  let ?g = "\<lambda>r. if row_id r = i
                then r\<lparr>trans_date := td, description := desc, income := inc, expenses := exps\<rparr>
                else r"
  have "map row_id (map ?g (rows s)) = map row_id (rows s)"
    by (rule nth_equalityI) simp_all
  with assms show ?thesis
    by (auto simp: wf_store_def update_transaction_def list_all_iff simp del: map_map)
qed

lemma map_row_id_upd: "map row_id (map (upd m) xs) = map row_id xs"
  by (simp add: row_id_upd o_def)

lemma wf_store_recalc:
  assumes "wf_store s" and "recalc_balance df s = (df', s')"
  shows "wf_store s'"
  using assms
  by (auto simp: wf_store_def recalc_balance_def Let_def persist_upd row_id_o_upd
        list_all_iff row_id_upd)

text \<open>
  With pairwise different ids the loop stores the frame's balances row for row, so a
  fetch after the recalculation returns the frame.
\<close>

lemma map_row_id_set_balance:
  "length bs = length df \<Longrightarrow> map row_id (set_balance df bs) = map row_id df"
  by (rule nth_equalityI) (simp_all add: set_balance_def)

lemma map_of_rev_distinct: "distinct (map fst xs) \<Longrightarrow> map_of (rev xs) = map_of xs"
  by (rule map_of_inject_set [THEN iffD2]) (simp_all add: rev_map [symmetric])

lemma persist_own_frame:
  assumes d: "distinct (map row_id df)" and l: "length bs = length df"
  shows "map (upd (map_of (map kv (rev (set_balance df bs))))) df = set_balance df bs"
proof (rule nth_equalityI)
  show "length (map (upd (map_of (map kv (rev (set_balance df bs))))) df) = length (set_balance df bs)"
    using l by (simp add: set_balance_def)
next
  fix i assume "i < length (map (upd (map_of (map kv (rev (set_balance df bs))))) df)"
  then have i: "i < length df" by simp
  let ?df' = "set_balance df bs"
  have ids: "map row_id ?df' = map row_id df" using l by (rule map_row_id_set_balance)
  have fst_kv: "map fst (map kv ?df') = map row_id ?df'" by (simp add: kv_def o_def)
  have dk: "distinct (map fst (map kv ?df'))" using d ids fst_kv by simp
  have nth': "?df' ! i = (df ! i)\<lparr>balance := bs ! i\<rparr>" using l i by (rule set_balance_nth)
  have len': "length ?df' = length df" using l by (rule length_set_balance)
  have "kv (?df' ! i) \<in> set (map kv ?df')" using i len' by simp
  then have "(row_id (df ! i), bs ! i) \<in> set (map kv ?df')" by (simp add: nth' kv_def)
  then have "map_of (map kv ?df') (row_id (df ! i)) = Some (bs ! i)"
    using dk by simp
  moreover have "map_of (map kv (rev ?df')) = map_of (map kv ?df')"
    using map_of_rev_distinct [OF dk] by (simp add: rev_map)
  ultimately show "map (upd (map_of (map kv (rev ?df')))) df ! i = ?df' ! i"
    using i by (simp add: nth' upd_def)
qed

lemma distinct_fetch: "wf_store s \<Longrightarrow> distinct (map row_id (fetch_transactions s))"
proof -
  assume "wf_store s"
  then have "distinct (map row_id (rows s))" by (rule wf_store_distinct)
  then show ?thesis
    by (simp add: fetch_transactions_def distinct_map)
qed

lemma fetch_after_recalc:
  assumes "wf_store s"
  shows "fetch_transactions (snd (recalc_balance (fetch_transactions s) s))
         = fst (recalc_balance (fetch_transactions s) s)"
proof -
  let ?F = "fetch_transactions s"
  have "sort_key trans_date (map (upd m) (rows s)) = map (upd m) ?F" for m
    by (simp add: fetch_transactions_def sort_key_map trans_date_upd)
  then show ?thesis
    using persist_own_frame [OF distinct_fetch [OF assms], of "balances (Finite 0) ?F"]
    by (simp add: recalc_balance_def Let_def persist_upd length_balances fetch_transactions_def)
qed

section \<open>Dates as text\<close>

text \<open>
  The ISO text of a date is ordered as the date is: the digits are compared from the
  most significant one on.
\<close>

lemma digit_simps:
  "digit 0 = CHR ''0''" "digit (Suc 0) = CHR ''1''" "digit 2 = CHR ''2''" "digit 3 = CHR ''3''"
  "digit 4 = CHR ''4''" "digit 5 = CHR ''5''" "digit 6 = CHR ''6''" "digit 7 = CHR ''7''"
  "digit 8 = CHR ''8''" "digit 9 = CHR ''9''"
  unfolding digit_def by code_simp+

lemma digit_less: "a < 10 \<Longrightarrow> b < 10 \<Longrightarrow> (digit a < digit b) = (a < b)"
  by (simp add: digit_def less_char_def of_char_of)

lemma digit_inj: "a < 10 \<Longrightarrow> b < 10 \<Longrightarrow> (digit a = digit b) = (a = b)"
proof -
  assume a: "a < 10" and b: "b < 10"
  have "(of_char (digit a) :: nat) = 48 + a" "(of_char (digit b) :: nat) = 48 + b"
    using a b by (simp_all add: digit_def of_char_of)
  then show ?thesis by (metis add_left_cancel)
qed

lemma lex10: "(x < y) = (x div 10 < y div 10 \<or> (x div 10 = y div 10 \<and> x mod 10 < y mod 10))" for x y :: nat
proof -
  have x: "x = 10 * (x div 10) + x mod 10" by simp
  have y: "y = 10 * (y div 10) + y mod 10" by simp
  have mx: "x mod 10 < 10" by simp
  have my: "y mod 10 < 10" by simp
  show ?thesis using x y mx my by linarith
qed

lemma eq10: "(x = y) = (x div 10 = y div 10 \<and> x mod 10 = y mod 10)" for x y :: nat
  by (metis div_mult_mod_eq)

lemma lexstep:
  "(x < y \<or> (x = y \<and> R))
   = (x div 10 < y div 10
      \<or> (x div 10 = y div 10 \<and> (x mod 10 < y mod 10 \<or> (x mod 10 = y mod 10 \<and> R))))"
  for x y :: nat
  using lex10 [of x y] eq10 [of x y] by blast

lemma digit_mod_less: "(digit (x mod 10) < digit (y mod 10)) = (x mod 10 < y mod 10)"
  by (rule digit_less) simp_all

lemma digit_mod_inj: "(digit (x mod 10) = digit (y mod 10)) = (x mod 10 = y mod 10)"
  by (rule digit_inj) simp_all

lemma two_digits_le:
  assumes "a \<le> 99" and "b \<le> 99"
  shows "([digit (a div 10 mod 10), digit (a mod 10)] @ xs
          \<le> [digit (b div 10 mod 10), digit (b mod 10)] @ ys)
         = (a < b \<or> (a = b \<and> xs \<le> ys))"
proof -
  have a: "a div 10 mod 10 = a div 10" and b: "b div 10 mod 10 = b div 10"
    using assms by simp_all
  have "([digit (a div 10 mod 10), digit (a mod 10)] @ xs
          \<le> [digit (b div 10 mod 10), digit (b mod 10)] @ ys)
      = (a div 10 mod 10 < b div 10 mod 10 \<or> (a div 10 mod 10 = b div 10 mod 10 \<and>
          (a mod 10 < b mod 10 \<or> (a mod 10 = b mod 10 \<and> xs \<le> ys))))"
    unfolding append_Cons append_Nil Cons_le_Cons digit_mod_less digit_mod_inj ..
  also have "\<dots> = (a < b \<or> (a = b \<and> xs \<le> ys))"
    unfolding a b lexstep [of a b] ..
  finally show ?thesis .
qed

lemma four_digits_le:
  assumes "a \<le> 9999" and "b \<le> 9999"
  shows "([digit (a div 1000 mod 10), digit (a div 100 mod 10),
           digit (a div 10 mod 10), digit (a mod 10)] @ xs
          \<le> [digit (b div 1000 mod 10), digit (b div 100 mod 10),
              digit (b div 10 mod 10), digit (b mod 10)] @ ys)
         = (a < b \<or> (a = b \<and> xs \<le> ys))"
proof -
  have a: "a div 1000 mod 10 = a div 1000" and b: "b div 1000 mod 10 = b div 1000"
    using assms by simp_all
  have d: "n div 10 div 10 = n div 100" "n div 100 div 10 = n div 1000" for n :: nat
    by (simp_all add: div_mult2_eq [symmetric])
  have "([digit (a div 1000 mod 10), digit (a div 100 mod 10),
           digit (a div 10 mod 10), digit (a mod 10)] @ xs
          \<le> [digit (b div 1000 mod 10), digit (b div 100 mod 10),
              digit (b div 10 mod 10), digit (b mod 10)] @ ys)
      = (a div 1000 mod 10 < b div 1000 mod 10 \<or> (a div 1000 mod 10 = b div 1000 mod 10 \<and>
          (a div 100 mod 10 < b div 100 mod 10 \<or> (a div 100 mod 10 = b div 100 mod 10 \<and>
          (a div 10 mod 10 < b div 10 mod 10 \<or> (a div 10 mod 10 = b div 10 mod 10 \<and>
          (a mod 10 < b mod 10 \<or> (a mod 10 = b mod 10 \<and> xs \<le> ys))))))))"
    unfolding append_Cons append_Nil Cons_le_Cons digit_mod_less digit_mod_inj ..
  also have "\<dots> = (a < b \<or> (a = b \<and> xs \<le> ys))"
    unfolding a b
    unfolding lexstep [of a b] lexstep [of "a div 10" "b div 10"]
      lexstep [of "a div 100" "b div 100"] d ..
  finally show ?thesis .
qed

lemma str_date_le_iff:
  assumes "valid_date d" and "valid_date e"
  shows "(str_date d \<le> str_date e) = date_le d e"
proof -
  have s: "str_date x
     = [digit (year x div 1000 mod 10), digit (year x div 100 mod 10),
        digit (year x div 10 mod 10), digit (year x mod 10)]
       @ CHR ''-'' # ([digit (month x div 10 mod 10), digit (month x mod 10)]
       @ CHR ''-'' # ([digit (day x div 10 mod 10), digit (day x mod 10)] @ []))" for x
    by (simp add: str_date_def)
  have y: "year d \<le> 9999" "year e \<le> 9999"
    and m: "month d \<le> 99" "month e \<le> 99"
    and dd: "day d \<le> 99" "day e \<le> 99"
    using assms by (simp_all add: valid_date_def)
  show ?thesis
    unfolding s four_digits_le [OF y] Cons_le_Cons two_digits_le [OF m] two_digits_le [OF dd]
    by (auto simp: date_le_def)
qed

section \<open>Evaluating the arithmetic and the forms\<close>

text \<open>
  The definitions that evaluate a sum or a difference of concrete doubles, those that
  run the forms on a concrete table, and the doubles that Python reads from 0.1, 0.2
  and 0.3.
\<close>

lemmas float_eval = fsub_def round_double_def expo_def pow2_def round_half_even_def Let_def

lemmas app_eval = submit_handler_def save_edit_handler_def delete_handler_def strip_def
  isspace_def add_transaction_def update_transaction_def delete_transaction_def str_date_def
  digit_simps empty_store_def fetch_transactions_def next_rowid_def recalc_balance_def
  set_balance_def sql_update_balance_def

lemma double_0_1: "round_double (1 / 10) = Finite (3602879701896397 / 36028797018963968)"
  by (simp add: float_eval)

lemma double_0_2: "round_double (2 / 10) = Finite (3602879701896397 / 18014398509481984)"
  by (simp add: float_eval)

lemma double_0_3: "round_double (3 / 10) = Finite (5404319552844595 / 18014398509481984)"
  by (simp add: float_eval)

text \<open>
  The arithmetic on examples: 0.1 + 0.2 is 0.30000000000000004; above \<open>2^53\<close> a tie goes
  to the even neighbour; whole numbers subtract exactly; the sum of two doubles of
  exponent 1023 is an infinity, and an infinity less itself is NaN.
\<close>

lemma fadd_examples:
  "fadd (round_double (1 / 10)) (round_double (2 / 10))
     = Finite (1351079888211149 / 4503599627370496)"
  "fadd (Finite 9007199254740992) (Finite 1) = Finite 9007199254740992"
  "fadd (Finite 9007199254740992) (Finite 3) = Finite 9007199254740996"
  "fsub (Finite 100) (Finite 40) = Finite 60"
  "fadd (Finite (2 ^ 1023)) (Finite (2 ^ 1023)) = PInf"
  "fsub (fadd (Finite (2 ^ 1023)) (Finite (2 ^ 1023))) PInf = NaN"
  unfolding double_0_1 double_0_2 by (simp_all add: float_eval)

text \<open>
  Three tables the forms produce: incomes 0.1 and 0.2; income 0.1, then income 0.2 with
  expenses 0.3; incomes 0.1, 0.2 and 0.3, and that table after the second row is deleted.
\<close>

lemma incomes_store:
  "snd (submit_handler \<lparr>year = 2024, month = 1, day = 2\<rparr> ''Milk''
     (round_double (2 / 10)) (Finite 0)
     (snd (submit_handler \<lparr>year = 2024, month = 1, day = 1\<rparr> ''Tea''
        (round_double (1 / 10)) (Finite 0) empty_store)))
   = \<lparr>rows =
       [\<lparr>row_id = 1, trans_date = ''2024-01-01'', description = ''Tea'',
          income = Finite (3602879701896397 / 36028797018963968), expenses = Finite 0, balance = Finite (3602879701896397 / 36028797018963968)\<rparr>,
        \<lparr>row_id = 2, trans_date = ''2024-01-02'', description = ''Milk'',
          income = Finite (3602879701896397 / 18014398509481984), expenses = Finite 0, balance = Finite (1351079888211149 / 4503599627370496)\<rparr>],
     seq = 2\<rparr>"
  unfolding double_0_1 double_0_2 by (simp add: app_eval float_eval)

lemma income_expenses_store:
  "snd (submit_handler \<lparr>year = 2024, month = 1, day = 2\<rparr> ''Milk''
     (round_double (2 / 10)) (round_double (3 / 10))
     (snd (submit_handler \<lparr>year = 2024, month = 1, day = 1\<rparr> ''Tea''
        (round_double (1 / 10)) (Finite 0) empty_store)))
   = \<lparr>rows =
       [\<lparr>row_id = 1, trans_date = ''2024-01-01'', description = ''Tea'',
          income = Finite (3602879701896397 / 36028797018963968), expenses = Finite 0, balance = Finite (3602879701896397 / 36028797018963968)\<rparr>,
        \<lparr>row_id = 2, trans_date = ''2024-01-02'', description = ''Milk'',
          income = Finite (3602879701896397 / 18014398509481984), expenses = Finite (5404319552844595 / 18014398509481984), balance = Finite (1 / 36028797018963968)\<rparr>],
     seq = 2\<rparr>"
  unfolding double_0_1 double_0_2 double_0_3 by (simp add: app_eval float_eval)

lemma three_incomes_store:
  "snd (submit_handler \<lparr>year = 2024, month = 1, day = 3\<rparr> ''Eggs''
     (round_double (3 / 10)) (Finite 0)
     (snd (submit_handler \<lparr>year = 2024, month = 1, day = 2\<rparr> ''Milk''
        (round_double (2 / 10)) (Finite 0)
        (snd (submit_handler \<lparr>year = 2024, month = 1, day = 1\<rparr> ''Tea''
           (round_double (1 / 10)) (Finite 0) empty_store)))))
   = \<lparr>rows =
       [\<lparr>row_id = 1, trans_date = ''2024-01-01'', description = ''Tea'',
          income = Finite (3602879701896397 / 36028797018963968), expenses = Finite 0, balance = Finite (3602879701896397 / 36028797018963968)\<rparr>,
        \<lparr>row_id = 2, trans_date = ''2024-01-02'', description = ''Milk'',
          income = Finite (3602879701896397 / 18014398509481984), expenses = Finite 0, balance = Finite (1351079888211149 / 4503599627370496)\<rparr>,
        \<lparr>row_id = 3, trans_date = ''2024-01-03'', description = ''Eggs'',
          income = Finite (5404319552844595 / 18014398509481984), expenses = Finite 0, balance = Finite (1351079888211149 / 2251799813685248)\<rparr>],
     seq = 3\<rparr>"
  unfolding incomes_store unfolding double_0_3 by (simp add: app_eval float_eval)

lemma three_incomes_deleted_store:
  "snd (delete_handler 2
     \<lparr>rows =
       [\<lparr>row_id = 1, trans_date = ''2024-01-01'', description = ''Tea'',
          income = Finite (3602879701896397 / 36028797018963968), expenses = Finite 0, balance = Finite (3602879701896397 / 36028797018963968)\<rparr>,
        \<lparr>row_id = 2, trans_date = ''2024-01-02'', description = ''Milk'',
          income = Finite (3602879701896397 / 18014398509481984), expenses = Finite 0, balance = Finite (1351079888211149 / 4503599627370496)\<rparr>,
        \<lparr>row_id = 3, trans_date = ''2024-01-03'', description = ''Eggs'',
          income = Finite (5404319552844595 / 18014398509481984), expenses = Finite 0, balance = Finite (1351079888211149 / 2251799813685248)\<rparr>],
     seq = 3\<rparr>)
   = \<lparr>rows =
       [\<lparr>row_id = 1, trans_date = ''2024-01-01'', description = ''Tea'',
          income = Finite (3602879701896397 / 36028797018963968), expenses = Finite 0, balance = Finite (3602879701896397 / 36028797018963968)\<rparr>,
        \<lparr>row_id = 3, trans_date = ''2024-01-03'', description = ''Eggs'',
          income = Finite (5404319552844595 / 18014398509481984), expenses = Finite 0, balance = Finite (3602879701896397 / 9007199254740992)\<rparr>],
     seq = 3\<rparr>"
  by (simp add: app_eval float_eval)

section \<open>The claims about recalculation, deletion and fetching\<close>

lemma balance_set_balance_nth:
  "length bs = length df \<Longrightarrow> i < length df \<Longrightarrow> balance (set_balance df bs ! i) = bs ! i"
  by (simp add: set_balance_def)

lemma map_balance_set_balance:
  "length bs = length df \<Longrightarrow> map balance (set_balance df bs) = bs"
  by (rule nth_equalityI) (simp_all add: set_balance_def)

lemma map_row_id_recalc: "map row_id (fst (recalc_balance df s)) = map row_id df"
  by (simp add: recalc_balance_def Let_def map_row_id_set_balance length_balances)

lemma filter_fetch:
  "fetch_transactions (s\<lparr>rows := filter P (rows s)\<rparr>) = filter P (fetch_transactions s)"
  by (simp add: fetch_transactions_def filter_sort)

lemma map_adjust_set_balance:
  "map (\<lambda>t. t\<lparr>balance := Finite (amount (balance t) - n)\<rparr>) (set_balance ys (map Finite bs))
   = set_balance ys (map Finite (map (\<lambda>x. x - n) bs))"
  by (rule nth_equalityI) (simp_all add: set_balance_def amount_def)

text \<open>
  C1, as the specification states it, fails. The forms are given the incomes 0.1 and
  0.2: the balance stored for the second row is 0.30000000000000004, the rounded sum,
  while \<open>sum(income[0..1]) - sum(expenses[0..1])\<close> is the exact sum of the two doubles,
  which is no double. Nor does it help to read \<open>sum\<close> as Python's rounded one: with
  income 0.1, then income 0.2 and expenses 0.3, the stored balance is \<open>2^-55\<close> and the
  difference of the two rounded sums is \<open>2^-54\<close>.
\<close>

theorem running_total_counterexample:
  "map balance (fetch_transactions
     (snd (submit_handler \<lparr>year = 2024, month = 1, day = 2\<rparr> ''Milk''
       (round_double (2 / 10)) (Finite 0)
       (snd (submit_handler \<lparr>year = 2024, month = 1, day = 1\<rparr> ''Tea''
          (round_double (1 / 10)) (Finite 0) empty_store)))))
   = [Finite (3602879701896397 / 36028797018963968), Finite (1351079888211149 / 4503599627370496)]
   \<and> sum_list (map amount (map income (fetch_transactions
     (snd (submit_handler \<lparr>year = 2024, month = 1, day = 2\<rparr> ''Milk''
       (round_double (2 / 10)) (Finite 0)
       (snd (submit_handler \<lparr>year = 2024, month = 1, day = 1\<rparr> ''Tea''
          (round_double (1 / 10)) (Finite 0) empty_store)))))))
     - sum_list (map amount (map expenses (fetch_transactions
     (snd (submit_handler \<lparr>year = 2024, month = 1, day = 2\<rparr> ''Milk''
       (round_double (2 / 10)) (Finite 0)
       (snd (submit_handler \<lparr>year = 2024, month = 1, day = 1\<rparr> ''Tea''
          (round_double (1 / 10)) (Finite 0) empty_store)))))))
     = 10808639105689191 / 36028797018963968
   \<and> Finite (1351079888211149 / 4503599627370496) \<noteq> Finite (10808639105689191 / 36028797018963968)
   \<and> map balance (fetch_transactions
     (snd (submit_handler \<lparr>year = 2024, month = 1, day = 2\<rparr> ''Milk''
       (round_double (2 / 10)) (round_double (3 / 10))
       (snd (submit_handler \<lparr>year = 2024, month = 1, day = 1\<rparr> ''Tea''
          (round_double (1 / 10)) (Finite 0) empty_store)))))
   = [Finite (3602879701896397 / 36028797018963968), Finite (1 / 36028797018963968)]
   \<and> fsub
       (py_sum (map income (fetch_transactions
     (snd (submit_handler \<lparr>year = 2024, month = 1, day = 2\<rparr> ''Milk''
       (round_double (2 / 10)) (round_double (3 / 10))
       (snd (submit_handler \<lparr>year = 2024, month = 1, day = 1\<rparr> ''Tea''
          (round_double (1 / 10)) (Finite 0) empty_store)))))))
       (py_sum (map expenses (fetch_transactions
     (snd (submit_handler \<lparr>year = 2024, month = 1, day = 2\<rparr> ''Milk''
       (round_double (2 / 10)) (round_double (3 / 10))
       (snd (submit_handler \<lparr>year = 2024, month = 1, day = 1\<rparr> ''Tea''
          (round_double (1 / 10)) (Finite 0) empty_store)))))))
     = Finite (1 / 18014398509481984)
   \<and> Finite (1 / 36028797018963968) \<noteq> Finite (1 / 18014398509481984)"
  unfolding incomes_store income_expenses_store
  by (simp add: fetch_transactions_def amount_def py_sum_def float_eval)

text \<open>
  C1, amended. After a fetch in date order, \<^verbatim>\<open>recalc_balance\<close> gives the \<open>i\<close>-th row the
  balance of the row before it (0 for the first row) plus \<open>income[i] - expenses[i]\<close>, the
  difference and the sum each rounded to a double. Where no operation of the pass rounds,
  that is \<open>sum(income[0..i]) - sum(expenses[0..i])\<close>. The table then holds exactly
  these rows: a new fetch returns the recalculated frame.
\<close>

theorem recalc_balance_running_total:
  assumes wf: "wf_store s"
    and rc: "recalc_balance (fetch_transactions s) s = (df', s')"
  shows "length df' = length (fetch_transactions s)
       \<and> (\<forall>i<length df'. balance (df' ! i)
              = fadd (if i = 0 then Finite 0 else balance (df' ! (i - 1)))
                  (fsub (income (fetch_transactions s ! i)) (expenses (fetch_transactions s ! i))))
       \<and> (exact_run 0 (fetch_transactions s) \<longrightarrow>
            (\<forall>i<length df'. balance (df' ! i)
               = Finite (sum_list (map amount (map income (take (Suc i) (fetch_transactions s))))
                         - sum_list (map amount (map expenses (take (Suc i) (fetch_transactions s)))))))
       \<and> fetch_transactions s' = df'"
proof -
  let ?F = "fetch_transactions s"
  have df': "df' = set_balance ?F (balances (Finite 0) ?F)"
    using rc by (simp add: recalc_balance_def Let_def)
  have len: "length df' = length ?F"
    by (simp add: df' length_set_balance length_balances)
  have bal: "balance (df' ! i) = balances (Finite 0) ?F ! i" if "i < length ?F" for i
    using that by (simp add: df' balance_set_balance_nth length_balances)
  have step: "balance (df' ! i)
      = fadd (if i = 0 then Finite 0 else balance (df' ! (i - 1)))
          (fsub (income (?F ! i)) (expenses (?F ! i)))"
    if i: "i < length ?F" for i
  proof -
    have prev: "(if i = 0 then Finite 0 else balance (df' ! (i - 1)))
        = (if i = 0 then Finite 0 else balances (Finite 0) ?F ! (i - 1))"
      using i by (simp add: bal)
    show ?thesis
      unfolding prev bal [OF i] by (rule balances_nth [OF i])
  qed
  have closed: "balance (df' ! i)
      = Finite (sum_list (map amount (map income (take (Suc i) ?F)))
                - sum_list (map amount (map expenses (take (Suc i) ?F))))"
    if e: "exact_run 0 ?F" and i: "i < length ?F" for i
  proof -
    have "balances (Finite 0) ?F = map Finite (exact_balances 0 ?F)"
      using e by (rule balances_exact)
    then have "balance (df' ! i) = Finite (exact_balances 0 ?F ! i)"
      using i by (simp add: bal length_exact_balances)
    then show ?thesis
      using i by (simp add: exact_balances_nth sum_list_net)
  qed
  have "fetch_transactions s' = df'"
    using fetch_after_recalc [OF wf] rc by simp
  with len step closed show ?thesis
    by simp
qed

theorem recalc_balance_running_total_witness:
  "(let s = \<lparr>rows =
         [\<lparr>row_id = 1, trans_date = ''2024-01-02'', description = ''Rent'',
            income = Finite 0, expenses = Finite 40, balance = Finite 0\<rparr>,
          \<lparr>row_id = 2, trans_date = ''2024-01-01'', description = ''Opening'',
            income = Finite 100, expenses = Finite 0, balance = Finite 0\<rparr>],
       seq = 2\<rparr>;
        df' =
         [\<lparr>row_id = 2, trans_date = ''2024-01-01'', description = ''Opening'',
            income = Finite 100, expenses = Finite 0, balance = Finite 100\<rparr>,
          \<lparr>row_id = 1, trans_date = ''2024-01-02'', description = ''Rent'',
            income = Finite 0, expenses = Finite 40, balance = Finite 60\<rparr>];
        s' = \<lparr>rows =
         [\<lparr>row_id = 1, trans_date = ''2024-01-02'', description = ''Rent'',
            income = Finite 0, expenses = Finite 40, balance = Finite 60\<rparr>,
          \<lparr>row_id = 2, trans_date = ''2024-01-01'', description = ''Opening'',
            income = Finite 100, expenses = Finite 0, balance = Finite 100\<rparr>],
       seq = 2\<rparr>
    in wf_store s
     \<and> recalc_balance (fetch_transactions s) s = (df', s')
     \<and> exact_run 0 (fetch_transactions s)
     \<and> map balance df' = [Finite 100, Finite (100 - 40)]
     \<and> fetch_transactions s' = df')"
proof -
  let ?a1 = "\<lparr>row_id = 1, trans_date = ''2024-01-02'', description = ''Rent'',
            income = Finite 0, expenses = Finite 40, balance = Finite 0\<rparr>"
  let ?a2 = "\<lparr>row_id = 2, trans_date = ''2024-01-01'', description = ''Opening'',
            income = Finite 100, expenses = Finite 0, balance = Finite 0\<rparr>"
  let ?b1 = "\<lparr>row_id = 1, trans_date = ''2024-01-02'', description = ''Rent'',
            income = Finite 0, expenses = Finite 40, balance = Finite 60\<rparr>"
  let ?b2 = "\<lparr>row_id = 2, trans_date = ''2024-01-01'', description = ''Opening'',
            income = Finite 100, expenses = Finite 0, balance = Finite 100\<rparr>"
  let ?s = "\<lparr>rows = [?a1, ?a2], seq = 2\<rparr>"
  let ?s' = "\<lparr>rows = [?b1, ?b2], seq = 2\<rparr>"
  have w: "wf_store ?s"
    by (simp add: wf_store_def)
  have r: "recalc_balance (fetch_transactions ?s) ?s = ([?b2, ?b1], ?s')"
    by (simp add: app_eval float_eval)
  have f: "fetch_transactions ?s = [?a2, ?a1]"
    by (simp add: fetch_transactions_def)
  have e: "exact_run 0 (fetch_transactions ?s)"
    unfolding f by (simp add: net_def amount_def float_eval)
  note t = recalc_balance_running_total [OF w r]
  from t have p: "fetch_transactions ?s' = [?b2, ?b1]"
    by blast
  from t e have "\<forall>i<length [?b2, ?b1]. balance ([?b2, ?b1] ! i)
      = Finite (sum_list (map amount (map income (take (Suc i) (fetch_transactions ?s))))
                - sum_list (map amount (map expenses (take (Suc i) (fetch_transactions ?s)))))"
    by blast
  have m: "map balance [?b2, ?b1] = [Finite 100, Finite (100 - 40)]"
    by simp
  show ?thesis
    unfolding Let_def by (intro conjI w r e p m)
qed

text \<open>
  C2. A second pass right after the first returns the same frame and leaves the same
  table, whether it re-fetches or runs on the frame it has just returned; and the frame
  it returns depends on the frame it is given only, not on the table.
\<close>

theorem recalc_balance_idempotent:
  "recalc_balance (fetch_transactions (snd (recalc_balance (fetch_transactions s) s)))
       (snd (recalc_balance (fetch_transactions s) s))
     = recalc_balance (fetch_transactions s) s
   \<and> recalc_balance (fst (recalc_balance df s)) (snd (recalc_balance df s)) = recalc_balance df s
   \<and> fst (recalc_balance df s) = fst (recalc_balance df s')"
proof -
  have a: "balances (Finite 0) (set_balance df (balances (Finite 0) df)) = balances (Finite 0) df"
    by (rule balances_only_amounts)
      (rule nth_equalityI; simp add: set_balance_def length_balances)+
  have b: "set_balance (set_balance df bs) bs = set_balance df bs" for bs
    by (rule nth_equalityI) (simp_all add: set_balance_def)
  have c: "map (upd m) (map (upd m) tbl) = map (upd m) tbl" for m tbl
    by (simp add: upd_idem)
  show ?thesis
    by (simp add: recalc_twice) (simp add: recalc_balance_def Let_def persist_upd a b c del: map_map)
qed

text \<open>
  C10. \<^verbatim>\<open>recalc_balance\<close> changes balances only: in the frame and in the table the ids,
  dates, descriptions, incomes and expenses are the same lists as before, so no row is
  added or removed, and the AUTOINCREMENT counter is untouched.
\<close>

theorem recalc_balance_frame:
  "map row_id (fst (recalc_balance df s)) = map row_id df
   \<and> map trans_date (fst (recalc_balance df s)) = map trans_date df
   \<and> map description (fst (recalc_balance df s)) = map description df
   \<and> map income (fst (recalc_balance df s)) = map income df
   \<and> map expenses (fst (recalc_balance df s)) = map expenses df
   \<and> length (fst (recalc_balance df s)) = length df
   \<and> map row_id (rows (snd (recalc_balance df s))) = map row_id (rows s)
   \<and> map trans_date (rows (snd (recalc_balance df s))) = map trans_date (rows s)
   \<and> map description (rows (snd (recalc_balance df s))) = map description (rows s)
   \<and> map income (rows (snd (recalc_balance df s))) = map income (rows s)
   \<and> map expenses (rows (snd (recalc_balance df s))) = map expenses (rows s)
   \<and> length (rows (snd (recalc_balance df s))) = length (rows s)
   \<and> seq (snd (recalc_balance df s)) = seq s"
proof -
  have f: "map g (set_balance df (balances (Finite 0) df)) = map g df"
    if "\<And>r b. g (r\<lparr>balance := b\<rparr>) = g r" for g :: "txn \<Rightarrow> 'a"
    by (rule nth_equalityI) (simp_all add: set_balance_def length_balances that)
  have t: "map g (map (upd m) tbl) = map g tbl"
    if "\<And>r b. g (r\<lparr>balance := b\<rparr>) = g r" for g :: "txn \<Rightarrow> 'a" and m tbl
    by (rule nth_equalityI) (simp_all add: upd_def that split: option.splits)
  show ?thesis
    by (simp add: recalc_balance_def Let_def persist_upd f t length_set_balance length_balances
          del: map_map)
qed

text \<open>
  C5, as the specification states it, fails. The forms are given the incomes 0.1, 0.2
  and 0.3, which leaves the balances 0.1, 0.30000000000000004 and 0.6000000000000001.
  After the second row is deleted the third has the balance 0.4, the rounded sum of 0.1
  and 0.3; its old balance less the net contribution 0.2 of the deleted row is
  0.4000000000000001, in exact arithmetic and in rounded arithmetic alike.
\<close>

theorem delete_shift_counterexample:
  "map balance (fetch_transactions
     (snd (submit_handler \<lparr>year = 2024, month = 1, day = 3\<rparr> ''Eggs''
       (round_double (3 / 10)) (Finite 0)
       (snd (submit_handler \<lparr>year = 2024, month = 1, day = 2\<rparr> ''Milk''
          (round_double (2 / 10)) (Finite 0)
          (snd (submit_handler \<lparr>year = 2024, month = 1, day = 1\<rparr> ''Tea''
             (round_double (1 / 10)) (Finite 0) empty_store)))))))
   = [Finite (3602879701896397 / 36028797018963968), Finite (1351079888211149 / 4503599627370496),
      Finite (1351079888211149 / 2251799813685248)]
   \<and> map balance (fetch_transactions
     (snd (delete_handler 2
       (snd (submit_handler \<lparr>year = 2024, month = 1, day = 3\<rparr> ''Eggs''
          (round_double (3 / 10)) (Finite 0)
          (snd (submit_handler \<lparr>year = 2024, month = 1, day = 2\<rparr> ''Milk''
             (round_double (2 / 10)) (Finite 0)
             (snd (submit_handler \<lparr>year = 2024, month = 1, day = 1\<rparr> ''Tea''
                (round_double (1 / 10)) (Finite 0) empty_store)))))))))
   = [Finite (3602879701896397 / 36028797018963968), Finite (3602879701896397 / 9007199254740992)]
   \<and> amount (Finite (1351079888211149 / 2251799813685248))
       - (amount (round_double (2 / 10)) - amount (Finite 0))
     = 7205759403792795 / 18014398509481984
   \<and> fsub (Finite (1351079888211149 / 2251799813685248)) (fsub (round_double (2 / 10)) (Finite 0))
     = Finite (7205759403792795 / 18014398509481984)
   \<and> Finite (3602879701896397 / 9007199254740992) \<noteq> Finite (7205759403792795 / 18014398509481984)"
  unfolding three_incomes_deleted_store three_incomes_store
  by (simp add: fetch_transactions_def amount_def double_0_2 float_eval)

text \<open>
  C5, amended. Let \<open>r\<close> stand in the date-ordered fetch between \<open>xs\<close> and \<open>ys\<close>. Deleting
  \<open>r\<close> and recalculating removes \<open>r\<close>, leaves the rows of \<open>xs\<close> with the balances a
  recalculation gave them before the deletion, and gives the rows of \<open>ys\<close> the running
  total that continues from the last balance of \<open>xs\<close> (from 0 when \<open>xs\<close> is empty), each
  step rounded; the table holds the new frame. Where no operation of the two passes
  rounds, the balances of \<open>ys\<close> are the former ones less \<open>income r - expenses r\<close>. When
  the table was recalculated before the deletion, the balances before are the stored
  ones.
\<close>

lemma exact_delete_shift:
  assumes "exact_run 0 (xs @ r # ys)" and "exact_run 0 (xs @ ys)"
  shows "set_balance (xs @ ys) (balances (Finite 0) (xs @ ys))
       = take (length xs) (set_balance (xs @ r # ys) (balances (Finite 0) (xs @ r # ys)))
         @ map (\<lambda>t. t\<lparr>balance := Finite (amount (balance t) - net r)\<rparr>)
             (drop (Suc (length xs))
                (set_balance (xs @ r # ys) (balances (Finite 0) (xs @ r # ys))))"
proof -
  define c where "c = sum_list (map net xs)"
  define ex where "ex = map Finite (exact_balances 0 xs)"
  have lx: "length ex = length xs" "length xs = length ex"
    by (simp_all add: ex_def length_exact_balances)
  have b: "balances (Finite 0) (xs @ r # ys)
      = ex @ Finite (c + net r) # map Finite (exact_balances (c + net r) ys)"
    using balances_exact [OF assms(1)]
    by (simp add: exact_balances_append Let_def c_def ex_def)
  have a: "balances (Finite 0) (xs @ ys) = ex @ map Finite (exact_balances c ys)"
    using balances_exact [OF assms(2)]
    by (simp add: exact_balances_append c_def ex_def)
  have ls: "length (set_balance xs ex) = length xs"
    by (simp add: length_set_balance lx(1))
  have "exact_balances c ys = map (\<lambda>x. x - net r) (exact_balances (c + net r) ys)"
    by (simp add: exact_balances_shift [of c "net r" ys] o_def)
  then have shift:
    "map (\<lambda>t. t\<lparr>balance := Finite (amount (balance t) - net r)\<rparr>)
       (set_balance ys (map Finite (exact_balances (c + net r) ys)))
     = set_balance ys (map Finite (exact_balances c ys))"
    by (simp add: map_adjust_set_balance)
  have sb: "set_balance (xs @ r # ys) (ex @ Finite (c + net r) # map Finite (exact_balances (c + net r) ys))
      = set_balance xs ex @ r\<lparr>balance := Finite (c + net r)\<rparr>
          # set_balance ys (map Finite (exact_balances (c + net r) ys))"
    by (simp add: set_balance_append [OF lx(2)] set_balance_Cons)
  have sa: "set_balance (xs @ ys) (ex @ map Finite (exact_balances c ys))
      = set_balance xs ex @ set_balance ys (map Finite (exact_balances c ys))"
    by (rule set_balance_append [OF lx(2)])
  show ?thesis
    unfolding a b sa sb by (simp add: ls shift)
qed

theorem delete_then_recalc:
  assumes wf: "wf_store s"
    and f: "fetch_transactions s = xs @ r # ys"
    and d: "delete_transaction (row_id r) s = Inr s1"
    and b: "recalc_balance (fetch_transactions s) s = (before, s0)"
    and a: "recalc_balance (fetch_transactions s1) s1 = (after, s2)"
  shows "take (length xs) after = take (length xs) before
       \<and> drop (length xs) after
           = set_balance ys
               (balances (last (Finite 0 # map balance (take (length xs) before))) ys)
       \<and> fetch_transactions s2 = after
       \<and> row_id r \<notin> row_id ` set (rows s2)
       \<and> map row_id (fetch_transactions s2) = map row_id (xs @ ys)
       \<and> (exact_run 0 (xs @ r # ys) \<and> exact_run 0 (xs @ ys) \<longrightarrow>
            after = take (length xs) before
                    @ map (\<lambda>t. t\<lparr>balance := Finite (amount (balance t)
                                       - (amount (income r) - amount (expenses r)))\<rparr>)
                        (drop (Suc (length xs)) before))
       \<and> (fetch_transactions s = before \<longrightarrow> take (length xs) (fetch_transactions s2) = xs)"
proof -
  have dist: "distinct (map row_id (xs @ r # ys))"
    using distinct_fetch [OF wf] f by simp
  have s1: "s1 = s\<lparr>rows := filter (\<lambda>t. row_id t \<noteq> row_id r) (rows s)\<rparr>"
    using d by (simp add: delete_transaction_def)
  have notin: "row_id r \<notin> row_id ` set xs" "row_id r \<notin> row_id ` set ys"
    using dist by auto
  have "\<forall>t\<in>set xs. row_id t \<noteq> row_id r"
    using notin(1) by (metis imageI)
  moreover have "\<forall>t\<in>set ys. row_id t \<noteq> row_id r"
    using notin(2) by (metis imageI)
  ultimately have "filter (\<lambda>t. row_id t \<noteq> row_id r) xs = xs"
    and "filter (\<lambda>t. row_id t \<noteq> row_id r) ys = ys"
    by (simp_all add: filter_id_conv)
  then have "filter (\<lambda>t. row_id t \<noteq> row_id r) (xs @ r # ys) = xs @ ys"
    by simp
  then have f1: "fetch_transactions s1 = xs @ ys"
    by (simp add: s1 filter_fetch f)
  have wf1: "wf_store s1" using wf d by (rule wf_store_delete)
  define bx where "bx = balances (Finite 0) xs"
  define c where "c = last (Finite 0 # bx)"
  define c' where "c' = fadd c (fsub (income r) (expenses r))"
  have lx: "length bx = length xs" "length xs = length bx"
    by (simp_all add: bx_def length_balances)
  have before: "before = set_balance xs bx @ r\<lparr>balance := c'\<rparr> # set_balance ys (balances c' ys)"
    using b
    by (simp add: recalc_balance_def Let_def f balances_append [of "Finite 0" xs "r # ys"]
          bx_def [symmetric] c_def [symmetric] c'_def [symmetric]
          set_balance_append [OF lx(2)] set_balance_Cons del: last.simps)
  have after: "after = set_balance xs bx @ set_balance ys (balances c ys)"
    using a
    by (simp add: recalc_balance_def Let_def f1 balances_append [of "Finite 0" xs ys]
          bx_def [symmetric] c_def [symmetric] set_balance_append [OF lx(2)] del: last.simps)
  have ls: "length (set_balance xs bx) = length xs"
    by (simp add: length_set_balance lx(1))
  have one: "take (length xs) after = take (length xs) before"
    by (simp add: before after ls)
  have "map balance (take (length xs) before) = bx"
    by (simp add: before ls map_balance_set_balance lx(1))
  then have two: "drop (length xs) after
      = set_balance ys (balances (last (Finite 0 # map balance (take (length xs) before))) ys)"
    by (simp add: after ls c_def del: last.simps)
  have three: "fetch_transactions s2 = after"
    using fetch_after_recalc [OF wf1] a by simp
  have ids: "map row_id after = map row_id (xs @ ys)"
    using map_row_id_recalc [of "fetch_transactions s1" s1] a f1 by simp
  have img: "row_id ` set (fetch_transactions s2) = set (map row_id (xs @ ys))"
    unfolding three ids [symmetric] by (rule set_map [symmetric])
  have "row_id r \<notin> set (map row_id (xs @ ys))"
    using dist by auto
  then have "row_id r \<notin> row_id ` set (fetch_transactions s2)"
    unfolding img .
  then have four: "row_id r \<notin> row_id ` set (rows s2)"
    by (simp add: fetch_transactions_def)
  have five: "after = take (length xs) before
                    @ map (\<lambda>t. t\<lparr>balance := Finite (amount (balance t)
                                       - (amount (income r) - amount (expenses r)))\<rparr>)
                        (drop (Suc (length xs)) before)"
    if "exact_run 0 (xs @ r # ys)" and "exact_run 0 (xs @ ys)"
  proof -
    have "before = set_balance (xs @ r # ys) (balances (Finite 0) (xs @ r # ys))"
      using b by (simp add: recalc_balance_def Let_def f)
    moreover have "after = set_balance (xs @ ys) (balances (Finite 0) (xs @ ys))"
      using a by (simp add: recalc_balance_def Let_def f1)
    ultimately show ?thesis
      using exact_delete_shift [OF that] by (simp add: net_def)
  qed
  have six: "take (length xs) (fetch_transactions s2) = xs" if "fetch_transactions s = before"
  proof -
    from that f have "take (length xs) before = xs" by (simp add: that [symmetric])
    with one three show ?thesis by simp
  qed
  from one two three four five six ids show ?thesis
    by simp
qed

theorem delete_then_recalc_witness:
  "(let r1 = \<lparr>row_id = 1, trans_date = ''2024-01-01'', description = ''Opening'',
            income = Finite 100, expenses = Finite 0, balance = Finite 100\<rparr>;
        r2 = \<lparr>row_id = 2, trans_date = ''2024-01-02'', description = ''Rent'',
            income = Finite 0, expenses = Finite 40, balance = Finite 60\<rparr>;
        r3 = \<lparr>row_id = 3, trans_date = ''2024-01-03'', description = ''Sale'',
            income = Finite 10, expenses = Finite 0, balance = Finite 70\<rparr>;
        s = \<lparr>rows = [r1, r2, r3], seq = 3\<rparr>;
        s1 = \<lparr>rows = [r1, r3], seq = 3\<rparr>;
        s2 = \<lparr>rows = [r1, r3\<lparr>balance := Finite 110\<rparr>], seq = 3\<rparr>
    in wf_store s
     \<and> fetch_transactions s = [r1] @ r2 # [r3]
     \<and> delete_transaction (row_id r2) s = Inr s1
     \<and> recalc_balance (fetch_transactions s) s = ([r1, r2, r3], s)
     \<and> recalc_balance (fetch_transactions s1) s1 = ([r1, r3\<lparr>balance := Finite 110\<rparr>], s2)
     \<and> exact_run 0 ([r1] @ r2 # [r3]) \<and> exact_run 0 ([r1] @ [r3])
     \<and> fetch_transactions s2 = [r1, r3\<lparr>balance := Finite 110\<rparr>]
     \<and> amount (balance r3) - (amount (income r2) - amount (expenses r2)) = 110)"
proof -
  let ?r1 = "\<lparr>row_id = 1, trans_date = ''2024-01-01'', description = ''Opening'',
            income = Finite 100, expenses = Finite 0, balance = Finite 100\<rparr>"
  let ?r2 = "\<lparr>row_id = 2, trans_date = ''2024-01-02'', description = ''Rent'',
            income = Finite 0, expenses = Finite 40, balance = Finite 60\<rparr>"
  let ?r3 = "\<lparr>row_id = 3, trans_date = ''2024-01-03'', description = ''Sale'',
            income = Finite 10, expenses = Finite 0, balance = Finite 70\<rparr>"
  let ?s = "\<lparr>rows = [?r1, ?r2, ?r3], seq = 3\<rparr>"
  let ?s1 = "\<lparr>rows = [?r1, ?r3], seq = 3\<rparr>"
  let ?s2 = "\<lparr>rows = [?r1, ?r3\<lparr>balance := Finite 110\<rparr>], seq = 3\<rparr>"
  have w: "wf_store ?s"
    by (simp add: wf_store_def)
  have f: "fetch_transactions ?s = [?r1] @ ?r2 # [?r3]"
    by (simp add: fetch_transactions_def)
  have d: "delete_transaction (row_id ?r2) ?s = Inr ?s1"
    by (simp add: delete_transaction_def)
  have b: "recalc_balance (fetch_transactions ?s) ?s = ([?r1, ?r2, ?r3], ?s)"
    by (simp add: app_eval float_eval)
  have a: "recalc_balance (fetch_transactions ?s1) ?s1 = ([?r1, ?r3\<lparr>balance := Finite 110\<rparr>], ?s2)"
    by (simp add: app_eval float_eval)
  have e1: "exact_run 0 ([?r1] @ ?r2 # [?r3])"
    by (simp add: net_def amount_def float_eval)
  have e2: "exact_run 0 ([?r1] @ [?r3])"
    by (simp add: net_def amount_def float_eval)
  have c: "fetch_transactions ?s = [?r1, ?r2, ?r3]"
    by (simp add: fetch_transactions_def)
  note t = delete_then_recalc [OF w f d b a]
  from t have p: "fetch_transactions ?s2 = [?r1, ?r3\<lparr>balance := Finite 110\<rparr>]"
    by blast
  from t e1 e2 have "[?r1, ?r3\<lparr>balance := Finite 110\<rparr>]
      = take (length [?r1]) [?r1, ?r2, ?r3]
        @ map (\<lambda>t. t\<lparr>balance := Finite (amount (balance t)
                           - (amount (income ?r2) - amount (expenses ?r2)))\<rparr>)
            (drop (Suc (length [?r1])) [?r1, ?r2, ?r3])"
    by blast
  from t c have "take (length [?r1]) (fetch_transactions ?s2) = [?r1]"
    by blast
  have n: "amount (balance ?r3) - (amount (income ?r2) - amount (expenses ?r2)) = 110"
    by (simp add: amount_def)
  show ?thesis
    unfolding Let_def by (intro conjI w f d b a e1 e2 p n)
qed

text \<open>
  C7. \<^verbatim>\<open>fetch_transactions\<close> returns the rows of the table, each once, sorted by
  \<^verbatim>\<open>trans_date\<close> ascending; rows with the same date keep their table order, which
  is ascending id; where the texts are the ISO forms of dates, as the forms store them,
  the order is the calendar's; and the result is empty exactly when the table is.
\<close>

theorem fetch_transactions_order:
  "sorted (map trans_date (fetch_transactions s))
   \<and> set (fetch_transactions s) = set (rows s)
   \<and> length (fetch_transactions s) = length (rows s)
   \<and> (\<forall>d. filter (\<lambda>r. trans_date r = d) (fetch_transactions s)
           = filter (\<lambda>r. trans_date r = d) (rows s))
   \<and> (wf_store s \<longrightarrow>
        sorted_wrt (\<lambda>a b. trans_date a < trans_date b
                          \<or> (trans_date a = trans_date b \<and> row_id a < row_id b))
          (fetch_transactions s))
   \<and> (\<forall>i j d e. i < j \<and> j < length (fetch_transactions s)
          \<and> trans_date (fetch_transactions s ! i) = str_date d
          \<and> trans_date (fetch_transactions s ! j) = str_date e
          \<and> valid_date d \<and> valid_date e
        \<longrightarrow> date_le d e)
   \<and> (fetch_transactions s = []) = (rows s = [])"
proof -
  let ?R = "\<lambda>a b. trans_date a < trans_date b \<or> (trans_date a = trans_date b \<and> row_id a < row_id b)"
  have ins: "sorted_wrt ?R (insort_key trans_date x ys)"
    if "sorted_wrt ?R ys" and "\<forall>y\<in>set ys. row_id x < row_id y" for x ys
    using that
  proof (induction ys)
    case Nil
    show ?case by simp
  next
    case (Cons y ys)
    show ?case
    proof (cases "trans_date x \<le> trans_date y")
      case True
      have "?R x z" if "z \<in> set (y # ys)" for z
      proof -
        have "trans_date y \<le> trans_date z" using Cons.prems(1) that by auto
        with True have "trans_date x \<le> trans_date z" by (rule order_trans)
        moreover have "row_id x < row_id z" using Cons.prems(2) that by auto
        ultimately show ?thesis by auto
      qed
      with True Cons.prems(1) show ?thesis by simp
    next
      case False
      then have "?R y x" by auto
      with False Cons show ?thesis by (auto simp: set_insort_key)
    qed
  qed
  have srt: "sorted_wrt ?R (sort_key trans_date tbl)" if "sorted_wrt (<) (map row_id tbl)" for tbl
    using that
  proof (induction tbl)
    case Nil
    show ?case by simp
  next
    case (Cons x tbl)
    then show ?case by (auto intro!: ins)
  qed
  have emp: "(sort_key trans_date tbl = []) = (tbl = [])" for tbl :: "txn list"
    using length_sort [of trans_date tbl] by (metis length_0_conv)
  have cal: "date_le d e"
    if "i < j" and "j < length (sort_key trans_date tbl)"
      and "trans_date (sort_key trans_date tbl ! i) = str_date d"
      and "trans_date (sort_key trans_date tbl ! j) = str_date e"
      and "valid_date d" and "valid_date e" for i j d e and tbl :: "txn list"
  proof -
    have "sorted (map trans_date (sort_key trans_date tbl))"
      by (rule sorted_sort_key)
    moreover have "i \<le> j" and "j < length (map trans_date (sort_key trans_date tbl))"
      using that by simp_all
    ultimately have "map trans_date (sort_key trans_date tbl) ! i
        \<le> map trans_date (sort_key trans_date tbl) ! j"
      by (rule sorted_nth_mono)
    then have "str_date d \<le> str_date e"
      using that by simp
    then show ?thesis
      using that str_date_le_iff by blast
  qed
  have "\<forall>i j d e. i < j \<and> j < length (fetch_transactions s)
          \<and> trans_date (fetch_transactions s ! i) = str_date d
          \<and> trans_date (fetch_transactions s ! j) = str_date e
          \<and> valid_date d \<and> valid_date e
        \<longrightarrow> date_le d e"
    unfolding fetch_transactions_def using cal by blast
  moreover have "sorted (map trans_date (fetch_transactions s))
     \<and> set (fetch_transactions s) = set (rows s)
     \<and> length (fetch_transactions s) = length (rows s)
     \<and> (\<forall>d. filter (\<lambda>r. trans_date r = d) (fetch_transactions s)
             = filter (\<lambda>r. trans_date r = d) (rows s))
     \<and> (wf_store s \<longrightarrow> sorted_wrt ?R (fetch_transactions s))
     \<and> (fetch_transactions s = []) = (rows s = [])"
    by (simp add: fetch_transactions_def sort_key_stable wf_store_def srt emp)
  ultimately show ?thesis
    by blast
qed

theorem fetch_transactions_order_witness:
  "(let s = \<lparr>rows =
         [\<lparr>row_id = 1, trans_date = ''2024-01-02'', description = ''Rent'',
            income = Finite 0, expenses = Finite 40, balance = Finite 60\<rparr>,
          \<lparr>row_id = 2, trans_date = ''2024-01-01'', description = ''Opening'',
            income = Finite 100, expenses = Finite 0, balance = Finite 100\<rparr>,
          \<lparr>row_id = 3, trans_date = ''2024-01-02'', description = ''Sale'',
            income = Finite 10, expenses = Finite 0, balance = Finite 70\<rparr>],
       seq = 3\<rparr>;
        d = \<lparr>year = 2024, month = 1, day = 1\<rparr>;
        e = \<lparr>year = 2024, month = 1, day = 2\<rparr>
    in wf_store s
     \<and> map row_id (fetch_transactions s) = [2, 1, 3]
     \<and> sorted_wrt (\<lambda>a b. trans_date a < trans_date b
                     \<or> (trans_date a = trans_date b \<and> row_id a < row_id b))
         (fetch_transactions s)
     \<and> (0::nat) < 1 \<and> 1 < length (fetch_transactions s)
     \<and> trans_date (fetch_transactions s ! 0) = str_date d
     \<and> trans_date (fetch_transactions s ! 1) = str_date e
     \<and> valid_date d \<and> valid_date e
     \<and> date_le d e)"
proof -
  let ?q1 = "\<lparr>row_id = 1, trans_date = ''2024-01-02'', description = ''Rent'',
            income = Finite 0, expenses = Finite 40, balance = Finite 60\<rparr>"
  let ?q2 = "\<lparr>row_id = 2, trans_date = ''2024-01-01'', description = ''Opening'',
            income = Finite 100, expenses = Finite 0, balance = Finite 100\<rparr>"
  let ?q3 = "\<lparr>row_id = 3, trans_date = ''2024-01-02'', description = ''Sale'',
            income = Finite 10, expenses = Finite 0, balance = Finite 70\<rparr>"
  let ?s = "\<lparr>rows = [?q1, ?q2, ?q3], seq = 3\<rparr>"
  let ?d = "\<lparr>year = 2024, month = 1, day = 1\<rparr>"
  let ?e = "\<lparr>year = 2024, month = 1, day = 2\<rparr>"
  have w: "wf_store ?s"
    by (simp add: wf_store_def)
  have f: "fetch_transactions ?s = [?q2, ?q1, ?q3]"
    by (simp add: fetch_transactions_def)
  have h: "(0::nat) < 1 \<and> 1 < length (fetch_transactions ?s)
      \<and> trans_date (fetch_transactions ?s ! 0) = str_date ?d
      \<and> trans_date (fetch_transactions ?s ! 1) = str_date ?e
      \<and> valid_date ?d \<and> valid_date ?e"
    unfolding f by (simp add: str_date_def digit_simps valid_date_def)
  note t = fetch_transactions_order [of ?s]
  from t w have o: "sorted_wrt (\<lambda>a b. trans_date a < trans_date b
                     \<or> (trans_date a = trans_date b \<and> row_id a < row_id b))
         (fetch_transactions ?s)"
    by blast
  from t h have c: "date_le ?d ?e"
    by blast
  have m: "map row_id (fetch_transactions ?s) = [2, 1, 3]"
    unfolding f by simp
  from w m o h c show ?thesis
    unfolding Let_def by blast
qed

section \<open>The claims about the mutations and the forms\<close>

text \<open>
  C3, as the specification states it, fails: \<^verbatim>\<open>DELETE\<close> and \<^verbatim>\<open>UPDATE\<close> with an id that
  matches no row are statements that change nothing, and the source raises nothing after
  them. Here the table holds id 1 only and the id asked for is 2.
\<close>

theorem missing_id_counterexample:
  "delete_transaction 2 \<lparr>rows = [\<lparr>row_id = 1, trans_date = ''2024-01-01'', description = ''Opening'',
        income = Finite 100, expenses = Finite 0, balance = Finite 100\<rparr>], seq = 1\<rparr> \<noteq> Inl NotFoundError
   \<and> update_transaction 2 ''2024-01-05'' ''Rent'' (Finite 0) (Finite 40)
        \<lparr>rows = [\<lparr>row_id = 1, trans_date = ''2024-01-01'', description = ''Opening'',
        income = Finite 100, expenses = Finite 0, balance = Finite 100\<rparr>], seq = 1\<rparr> \<noteq> Inl NotFoundError"
  by (simp add: delete_transaction_def update_transaction_def)

text \<open>
  C3, amended. For an id that is not in the table, \<^verbatim>\<open>delete_transaction\<close> and
  \<^verbatim>\<open>update_transaction\<close> return normally and leave the table as it was; and a second
  delete of any id returns normally as well and changes nothing more.
\<close>

theorem missing_id_is_noop:
  assumes "i \<notin> row_id ` set (rows s)"
  shows "delete_transaction i s = Inr s
       \<and> update_transaction i td desc inc exps s = Inr s
       \<and> (\<exists>s'. delete_transaction j s = Inr s' \<and> delete_transaction j s' = Inr s')"
proof -
  have ne: "\<forall>r\<in>set (rows s). row_id r \<noteq> i"
    using assms by (metis imageI)
  then have "filter (\<lambda>r. row_id r \<noteq> i) (rows s) = rows s"
    by (simp add: filter_id_conv)
  then have d: "delete_transaction i s = Inr s"
    by (simp add: delete_transaction_def)
  have "map (\<lambda>r. if row_id r = i
                 then r\<lparr>trans_date := td, description := desc, income := inc, expenses := exps\<rparr>
                 else r) (rows s) = rows s"
    using ne by (simp add: map_idI)
  then have u: "update_transaction i td desc inc exps s = Inr s"
    by (simp add: update_transaction_def)
  have "delete_transaction j (s\<lparr>rows := filter (\<lambda>r. row_id r \<noteq> j) (rows s)\<rparr>)
        = Inr (s\<lparr>rows := filter (\<lambda>r. row_id r \<noteq> j) (rows s)\<rparr>)"
    by (simp add: delete_transaction_def)
  then have "\<exists>s'. delete_transaction j s = Inr s' \<and> delete_transaction j s' = Inr s'"
    by (simp add: delete_transaction_def)
  with d u show ?thesis by simp
qed

theorem missing_id_is_noop_witness:
  "(2::int) \<notin> row_id ` set (rows \<lparr>rows = [\<lparr>row_id = 1, trans_date = ''2024-01-01'',
        description = ''Opening'', income = Finite 100, expenses = Finite 0, balance = Finite 100\<rparr>], seq = 1\<rparr>)
   \<and> delete_transaction 2 \<lparr>rows = [\<lparr>row_id = 1, trans_date = ''2024-01-01'',
        description = ''Opening'', income = Finite 100, expenses = Finite 0, balance = Finite 100\<rparr>], seq = 1\<rparr>
      = Inr \<lparr>rows = [\<lparr>row_id = 1, trans_date = ''2024-01-01'',
        description = ''Opening'', income = Finite 100, expenses = Finite 0, balance = Finite 100\<rparr>], seq = 1\<rparr>"
proof -
  have h: "(2::int) \<notin> row_id ` set (rows \<lparr>rows = [\<lparr>row_id = 1, trans_date = ''2024-01-01'',
        description = ''Opening'', income = Finite 100, expenses = Finite 0, balance = Finite 100\<rparr>], seq = 1\<rparr>)"
    by simp
  from missing_id_is_noop [OF h] h show ?thesis by simp
qed

text \<open>
  C4. When the description is empty after stripping, or income and expenses are both
  zero, the add form answers with a warning and the table is the one it was; so a fetch
  returns the same rows as before.
\<close>

theorem submit_rejects_invalid:
  assumes "strip desc = [] \<or> (inc = Finite 0 \<and> exps = Finite 0)"
  shows "(\<exists>msg. submit_handler td desc inc exps s = (Warning msg, s))
       \<and> fetch_transactions (snd (submit_handler td desc inc exps s)) = fetch_transactions s"
  using assms by (auto simp: submit_handler_def)

theorem submit_rejects_invalid_witness:
  "(strip ''  '' = [] \<or> (Finite 5 = Finite 0 \<and> Finite 0 = Finite 0))
   \<and> (\<exists>msg. submit_handler \<lparr>year = 2024, month = 1, day = 2\<rparr> ''  '' (Finite 5) (Finite 0)
                empty_store
              = (Warning msg, empty_store))
   \<and> (strip ''Tea'' = [] \<or> (Finite 0 = Finite 0 \<and> Finite 0 = Finite 0))
   \<and> (\<exists>msg. submit_handler \<lparr>year = 2024, month = 1, day = 2\<rparr> ''Tea'' (Finite 0) (Finite 0)
                empty_store
              = (Warning msg, empty_store))"
proof -
  have h1: "strip ''  '' = [] \<or> (Finite 5 = Finite 0 \<and> Finite 0 = Finite 0)"
    by (simp add: strip_def isspace_def)
  have h2: "strip ''Tea'' = [] \<or> (Finite 0 = Finite 0 \<and> Finite 0 = Finite 0)"
    by simp
  from submit_rejects_invalid [OF h1] submit_rejects_invalid [OF h2] h1 h2
  show ?thesis by blast
qed

text \<open>
  C9. \<^verbatim>\<open>add_transaction\<close> itself checks nothing: for every input it returns normally
  with one more row at the end of the table, carrying the date, description and amounts
  given, also for an empty description with both amounts zero; the form's handler is
  what rejects that input.
\<close>

theorem add_transaction_no_validation:
  "(\<exists>s' r. add_transaction td desc inc exps s = Inr s' \<and> rows s' = rows s @ [r]
            \<and> trans_date r = td \<and> description r = desc \<and> income r = inc \<and> expenses r = exps)
   \<and> (\<exists>s' r. add_transaction td [] (Finite 0) (Finite 0) s = Inr s' \<and> rows s' = rows s @ [r]
            \<and> description r = [] \<and> income r = Finite 0 \<and> expenses r = Finite 0)
   \<and> (\<exists>msg. submit_handler d [] (Finite 0) (Finite 0) s = (Warning msg, s))"
  by (simp add: add_transaction_def Let_def submit_handler_def strip_def)

text \<open>
  The four steps of the specification's scenario, each evaluated on the table the step
  before has left. All its amounts and sums are whole numbers, which no operation
  rounds.
\<close>

lemma scenario_step1:
  "submit_handler \<lparr>year = 2024, month = 1, day = 1\<rparr> ''Opening'' (Finite 100) (Finite 0) empty_store
   = (Success ''Transaction added successfully!'',
      \<lparr>rows = [\<lparr>row_id = 1, trans_date = ''2024-01-01'', description = ''Opening'',
                 income = Finite 100, expenses = Finite 0, balance = Finite 100\<rparr>], seq = 1\<rparr>)"
  by (simp add: app_eval float_eval)

lemma scenario_step2:
  "submit_handler \<lparr>year = 2024, month = 1, day = 2\<rparr> ''Rent'' (Finite 0) (Finite 40)
      \<lparr>rows = [\<lparr>row_id = 1, trans_date = ''2024-01-01'', description = ''Opening'',
                 income = Finite 100, expenses = Finite 0, balance = Finite 100\<rparr>], seq = 1\<rparr>
   = (Success ''Transaction added successfully!'',
      \<lparr>rows = [\<lparr>row_id = 1, trans_date = ''2024-01-01'', description = ''Opening'',
                 income = Finite 100, expenses = Finite 0, balance = Finite 100\<rparr>,
               \<lparr>row_id = 2, trans_date = ''2024-01-02'', description = ''Rent'',
                 income = Finite 0, expenses = Finite 40, balance = Finite 60\<rparr>], seq = 2\<rparr>)"
  by (simp add: app_eval float_eval)

lemma scenario_step3:
  "save_edit_handler 1 \<lparr>year = 2024, month = 1, day = 1\<rparr> ''Opening'' (Finite 200) (Finite 0)
      \<lparr>rows = [\<lparr>row_id = 1, trans_date = ''2024-01-01'', description = ''Opening'',
                 income = Finite 100, expenses = Finite 0, balance = Finite 100\<rparr>,
               \<lparr>row_id = 2, trans_date = ''2024-01-02'', description = ''Rent'',
                 income = Finite 0, expenses = Finite 40, balance = Finite 60\<rparr>], seq = 2\<rparr>
   = (Success ''Transaction updated successfully!'',
      \<lparr>rows = [\<lparr>row_id = 1, trans_date = ''2024-01-01'', description = ''Opening'',
                 income = Finite 200, expenses = Finite 0, balance = Finite 200\<rparr>,
               \<lparr>row_id = 2, trans_date = ''2024-01-02'', description = ''Rent'',
                 income = Finite 0, expenses = Finite 40, balance = Finite 160\<rparr>], seq = 2\<rparr>)"
  by (simp add: app_eval float_eval)

lemma scenario_step4:
  "delete_handler 2
      \<lparr>rows = [\<lparr>row_id = 1, trans_date = ''2024-01-01'', description = ''Opening'',
                 income = Finite 200, expenses = Finite 0, balance = Finite 200\<rparr>,
               \<lparr>row_id = 2, trans_date = ''2024-01-02'', description = ''Rent'',
                 income = Finite 0, expenses = Finite 40, balance = Finite 160\<rparr>], seq = 2\<rparr>
   = (Success ''Transaction deleted successfully!'',
      \<lparr>rows = [\<lparr>row_id = 1, trans_date = ''2024-01-01'', description = ''Opening'',
                 income = Finite 200, expenses = Finite 0, balance = Finite 200\<rparr>], seq = 2\<rparr>)"
  by (simp add: app_eval float_eval)

text \<open>
  C6. From the empty table: adding (2024-01-01, Opening, income 100) gives the balance
  100; adding (2024-01-02, Rent, expenses 40) gives the balances 100, 60; changing the
  income of the first record to 200 gives 200, 160; deleting the second record gives
  200. Each step is the form's handler, which recalculates after the mutation.
\<close>

theorem scenario:
  "(let s1 = snd (submit_handler \<lparr>year = 2024, month = 1, day = 1\<rparr> ''Opening'' (Finite 100) (Finite 0)
                  empty_store);
        s2 = snd (submit_handler \<lparr>year = 2024, month = 1, day = 2\<rparr> ''Rent'' (Finite 0) (Finite 40) s1);
        s3 = snd (save_edit_handler 1 \<lparr>year = 2024, month = 1, day = 1\<rparr> ''Opening'' (Finite 200)
                  (Finite 0) s2);
        s4 = snd (delete_handler 2 s3)
    in map balance (fetch_transactions s1) = [Finite 100]
     \<and> map balance (fetch_transactions s2) = [Finite 100, Finite 60]
     \<and> map balance (fetch_transactions s3) = [Finite 200, Finite 160]
     \<and> map balance (fetch_transactions s4) = [Finite 200]
     \<and> map row_id (fetch_transactions s2) = [1, 2]
     \<and> map row_id (fetch_transactions s4) = [1])"
  unfolding Let_def scenario_step1 scenario_step2 scenario_step3 scenario_step4 snd_conv
  by (simp add: fetch_transactions_def)

end
